theory Spec2Isabelle
  imports Main "HOL-Library.Sublist" "HOL-Library.Char_ord" "HOL-Library.List_Lexorder"
begin

section \<open>Data model of the bots service\<close>

text \<open>
  The service class \<open>BotsService\<close> keeps two maps keyed by the tenant id, \<open>bots\<close> (the
  registry of live connection handles) and \<open>connectionAttempts\<close> (the reconnect counters).
  Besides them the state below holds what the service touches outside itself: the
  \<open>sessions\<close> directory tree and a trace of the calls made to the outside world (waits,
  provider connections, webhook posts, outbound sends), in the order they are made.

  The repository holds two revisions of the service. Pruning, \<open>iniciarBot\<close> and the
  handler of \<open>connection.update\<close> are the same in both; the handling of messages, the
  webhook and the status report are those of the later revision.
\<close>

record empresa =
  id_emp :: string
  nombre :: string
  whatsapp :: string
  sesionPath :: string

type_synonym sock = nat

datatype action =
    Esperar nat
  | MakeSocket string sock
  | SockEnd sock
  | AxiosPost string
  | ProcesarMensajeLocal string string
  | SendMessage sock "string option" string
  | Unlink string string

record state =
  bots :: "string \<rightharpoonup> sock"
  connectionAttempts :: "string \<rightharpoonup> nat"
  sessionsDir :: bool
  dirs :: "string \<rightharpoonup> string list"
  openCalls :: nat
  trace :: "action list"

definition MAX_RECONNECT_ATTEMPTS :: nat where
  "MAX_RECONNECT_ATTEMPTS = 5"

definition RECONNECT_INTERVAL :: nat where
  "RECONNECT_INTERVAL = 5000"

text \<open>
  \<open>DisconnectReason.loggedOut\<close> is a constant of the connection library; its value there
  is the status code 401. The handler only compares the status code of a close with it.
\<close>

definition loggedOut :: nat where
  "loggedOut = 401"

text \<open>The expression \<open>this.connectionAttempts.get(id) || 0\<close>.\<close>

definition intentos :: "state \<Rightarrow> string \<Rightarrow> nat" where
  "intentos st k = (case connectionAttempts st k of None \<Rightarrow> 0 | Some n \<Rightarrow> n)"

definition esperar :: "nat \<Rightarrow> state \<Rightarrow> state" where
  "esperar ms st = st\<lparr>trace := trace st @ [Esperar ms]\<rparr>"

section \<open>The outside world\<close>

text \<open>
  Errors are JavaScript exceptions: an \<open>Error\<close> object with its message, or the
  \<open>TypeError\<close> of the runtime when a property of \<open>undefined\<close> is read.
\<close>

datatype exn = Error string | TypeError

fun exn_message :: "exn \<Rightarrow> string" where
  "exn_message (Error m) = m"
| "exn_message TypeError = ''Cannot read properties of undefined''"

text \<open>
  What the body of the \<open>try\<close> block of \<open>iniciarBot\<close> meets is decided outside the
  service: creating the session directory can fail, and so can reading the session
  material or building the socket. The environment gives the outcome of each run of
  the block, numbered by \<open>openCalls\<close>.
\<close>

datatype outcome = MkdirFails | OpenFails | Opened

text \<open>
  The answer to an \<open>axios.post\<close>: a response with its HTTP status, a timeout (10 seconds
  in the source) or a network error. \<open>axios\<close> throws unless the status is 2xx.
\<close>

datatype respuesta_http = Status nat | Timeout | NetworkError

record datos =
  mensaje :: string
  telefono :: "string option"
  empresaId :: string
  timestamp :: nat

text \<open>
  The environment of a run: the outcome of each attempt to open a provider connection,
  whether \<open>fs.unlinkSync\<close> of a file of a tenant directory succeeds, the answer of the
  webhook to a post, whether the provider accepts an outbound send (\<open>None\<close>) or throws,
  the contents of \<open>empresas.json\<close>, and the base URL of the webhook.
\<close>

record entorno =
  provider :: "nat \<Rightarrow> outcome"
  unlink_ok :: "string \<Rightarrow> string \<Rightarrow> bool"
  axios_post :: "string \<Rightarrow> datos \<Rightarrow> respuesta_http"
  sendMessage_throws :: "sock \<Rightarrow> string option \<Rightarrow> string \<Rightarrow> exn option"
  empresasData :: "empresa list"
  N8N_WEBHOOK_URL :: string

section \<open>Starting a session: iniciarBot\<close>

text \<open>
  \<open>if (!fs.existsSync(sesionDir)) fs.mkdirSync(sesionDir, { recursive: true })\<close>: the
  directory of the tenant is created empty when it is missing, and \<open>sessions\<close> with it.
\<close>

definition mkdirSync :: "string \<Rightarrow> state \<Rightarrow> state" where
  "mkdirSync k st =
     (if k \<in> dom (dirs st) then st
      else st\<lparr>sessionsDir := True, dirs := (dirs st)(k \<mapsto> [])\<rparr>)"

function iniciarBot :: "entorno \<Rightarrow> empresa \<Rightarrow> state \<Rightarrow> state" where
  "iniciarBot env e st =
     (if id_emp e \<in> dom (bots st) then st
      else
        let n = openCalls st;
            st1 = st\<lparr>openCalls := Suc n\<rparr>
        in case provider env n of
             Opened \<Rightarrow>
               (let st2 = mkdirSync (id_emp e) st1
                in st2\<lparr>bots := (bots st2)(id_emp e \<mapsto> n),
                        trace := trace st2 @ [MakeSocket (id_emp e) n]\<rparr>)
           | failure \<Rightarrow>
               (let st2 = (if failure = OpenFails then mkdirSync (id_emp e) st1 else st1);
                    attempts = intentos st2 (id_emp e) + 1
                in if attempts \<le> MAX_RECONNECT_ATTEMPTS
                   then iniciarBot env e
                          (esperar RECONNECT_INTERVAL
                             (st2\<lparr>connectionAttempts :=
                                     (connectionAttempts st2)(id_emp e \<mapsto> attempts)\<rparr>))
                   else st2))"
  by pat_completeness auto
termination
  by (relation "measure (\<lambda>(env, e, st). MAX_RECONNECT_ATTEMPTS - intentos st (id_emp e))")
     (auto simp: intentos_def esperar_def mkdirSync_def MAX_RECONNECT_ATTEMPTS_def
           split: option.splits if_splits)

declare iniciarBot.simps [simp del]

section \<open>The connection.update handler\<close>

datatype connection = Close | Open | Connecting

record update =
  connection :: "connection option"
  statusCode :: "nat option"
  qr :: "string option"

text \<open>
  The handler runs in two parts, separated by \<open>await this.esperar(delay)\<close>. The first part
  decides: it returns the new state and, when a reconnect is scheduled, the delay that
  the handler is about to wait. The second part is what runs once the wait is over.
\<close>

definition truthy :: "string option \<Rightarrow> bool" where
  "truthy s = (case s of None \<Rightarrow> False | Some t \<Rightarrow> t \<noteq> [])"

definition connection_update_decide :: "empresa \<Rightarrow> update \<Rightarrow> state \<Rightarrow> state \<times> nat option" where
  "connection_update_decide e u st =
     (let st1 = (if truthy (qr u)
                 then st\<lparr>connectionAttempts := (connectionAttempts st)(id_emp e \<mapsto> 0)\<rparr>
                 else st)
      in if connection u = Some Close then
           (let shouldReconnect = (statusCode u \<noteq> Some loggedOut);
                attempts = intentos st1 (id_emp e) + 1
            in if shouldReconnect \<and> attempts \<le> MAX_RECONNECT_ATTEMPTS then
                 (st1\<lparr>connectionAttempts := (connectionAttempts st1)(id_emp e \<mapsto> attempts)\<rparr>,
                  Some (min (1000 * 2 ^ attempts) 30000))
               else if attempts > MAX_RECONNECT_ATTEMPTS then
                 (st1\<lparr>bots := (bots st1)(id_emp e := None),
                       connectionAttempts := (connectionAttempts st1)(id_emp e := None)\<rparr>,
                  None)
               else (st1, None))
         else if connection u = Some Open then
           (st1\<lparr>connectionAttempts := (connectionAttempts st1)(id_emp e := None)\<rparr>, None)
         else (st1, None))"

definition reconectar :: "entorno \<Rightarrow> empresa \<Rightarrow> nat \<Rightarrow> state \<Rightarrow> state" where
  "reconectar env e delay st =
     (let st1 = esperar delay st;
          st2 = (case bots st1 (id_emp e) of
                   None \<Rightarrow> st1
                 | Some oldSock \<Rightarrow>
                     st1\<lparr>bots := (bots st1)(id_emp e := None),
                          trace := trace st1 @ [SockEnd oldSock]\<rparr>)
      in iniciarBot env e st2)"

definition connection_update :: "entorno \<Rightarrow> empresa \<Rightarrow> update \<Rightarrow> state \<Rightarrow> state" where
  "connection_update env e u st =
     (case connection_update_decide e u st of
        (st', None) \<Rightarrow> st'
      | (st', Some delay) \<Rightarrow> reconectar env e delay st')"

text \<open>
  The events of one connection are handled in the order the provider delivers them;
  here each handler has finished (its wait included) when the next event arrives.
\<close>

fun procesar :: "entorno \<Rightarrow> empresa \<Rightarrow> update list \<Rightarrow> state \<Rightarrow> state" where
  "procesar env e [] st = st"
| "procesar env e (u # us) st = procesar env e us (connection_update env e u st)"

text \<open>A close event with the given status code and no pairing code.\<close>

definition cierre :: "nat option \<Rightarrow> update" where
  "cierre c = \<lparr>connection = Some Close, statusCode = c, qr = None\<rparr>"

record estado =
  estado_empresaId :: string
  activo :: bool
  intentosReconexion :: nat
  estado_timestamp :: nat

definition obtenerEstadoBot :: "nat \<Rightarrow> string \<Rightarrow> state \<Rightarrow> estado" where
  "obtenerEstadoBot now k st =
     \<lparr>estado_empresaId = k, activo = (k \<in> dom (bots st)),
      intentosReconexion = intentos st k, estado_timestamp = now\<rparr>"

section \<open>Pruning old session files: limpiarSesionesAntiguas\<close>

definition startsWith :: "string \<Rightarrow> string \<Rightarrow> bool" where
  "startsWith s p = prefix p s"

text \<open>\<open>archivo.split('.')[0]\<close>: the name up to its first dot, the whole name without one.\<close>

definition chatId_of :: "string \<Rightarrow> string" where
  "chatId_of archivo = takeWhile (\<lambda>c. c \<noteq> CHR ''.'') archivo"

text \<open>
  \<open>sesionesPorChat\<close> is a \<open>Map\<close> from chat id to the names of its files: an association
  list in insertion order. \<open>push_sesion\<close> is \<open>sesionesPorChat.get(chatId)?.push(archivo)\<close>.
\<close>

fun push_sesion :: "string \<Rightarrow> string \<Rightarrow> (string \<times> string list) list \<Rightarrow> (string \<times> string list) list" where
  "push_sesion chatId archivo [] = []"
| "push_sesion chatId archivo ((k, v) # m) =
     (if k = chatId then (k, v @ [archivo]) # m else (k, v) # push_sesion chatId archivo m)"

fun agrupar :: "string list \<Rightarrow> (string \<times> string list) list \<Rightarrow> (string \<times> string list) list" where
  "agrupar [] m = m"
| "agrupar (archivo # archivos) m =
     (if startsWith archivo ''session-'' then
        (let chatId = chatId_of archivo;
             m1 = (if map_of m chatId = None then m @ [(chatId, [])] else m)
         in agrupar archivos (push_sesion chatId archivo m1))
      else agrupar archivos m)"

text \<open>
  \<open>sesiones.sort().reverse().slice(0, 10)\<close>: the default sort of JavaScript orders strings
  by their code units, which is the lexicographic order of \<open>string\<close>.
\<close>

definition ultimas :: "string list \<Rightarrow> string list" where
  "ultimas sesiones = take 10 (rev (sort sesiones))"

fun sesionesActivas_of :: "(string \<times> string list) list \<Rightarrow> string set" where
  "sesionesActivas_of [] = {}"
| "sesionesActivas_of ((chatId, sesiones) # m) = set (ultimas sesiones) \<union> sesionesActivas_of m"

definition unlinkSync :: "entorno \<Rightarrow> string \<Rightarrow> string \<Rightarrow> state \<Rightarrow> (exn + unit) \<times> state" where
  "unlinkSync env k archivo st =
     (case dirs st k of
        None \<Rightarrow> (Inl (Error ''ENOENT''), st)
      | Some archivos \<Rightarrow>
          if archivo \<in> set archivos \<and> unlink_ok env k archivo
          then (Inr (), st\<lparr>dirs := (dirs st)(k \<mapsto> removeAll archivo archivos),
                           trace := trace st @ [Unlink k archivo]\<rparr>)
          else (Inl (Error ''unlink''), st))"

fun eliminar :: "entorno \<Rightarrow> string \<Rightarrow> string set \<Rightarrow> string list \<Rightarrow> state \<Rightarrow> (exn + unit) \<times> state" where
  "eliminar env k sesionesActivas [] st = (Inr (), st)"
| "eliminar env k sesionesActivas (archivo # archivos) st =
     (if startsWith archivo ''session-'' \<and> archivo \<notin> sesionesActivas then
        (case unlinkSync env k archivo st of
           (Inl err, st') \<Rightarrow> (Inl err, st')
         | (Inr _, st') \<Rightarrow> eliminar env k sesionesActivas archivos st')
      else eliminar env k sesionesActivas archivos st)"

text \<open>The body of the loop over the tenants, for one tenant.\<close>

definition limpiarEmpresa :: "entorno \<Rightarrow> empresa \<Rightarrow> state \<Rightarrow> (exn + unit) \<times> state" where
  "limpiarEmpresa env e st =
     (case dirs st (id_emp e) of
        None \<Rightarrow> (Inr (), st)
      | Some archivos \<Rightarrow>
          (let sesionesPorChat = agrupar archivos [];
               sesionesActivas = sesionesActivas_of sesionesPorChat
           in eliminar env (id_emp e) sesionesActivas archivos st))"

fun limpiarEmpresas :: "entorno \<Rightarrow> empresa list \<Rightarrow> state \<Rightarrow> (exn + unit) \<times> state" where
  "limpiarEmpresas env [] st = (Inr (), st)"
| "limpiarEmpresas env (e # es) st =
     (case limpiarEmpresa env e st of
        (Inl err, st') \<Rightarrow> (Inl err, st')
      | (Inr _, st') \<Rightarrow> limpiarEmpresas env es st')"

text \<open>
  The whole function: an exception anywhere ends the pruning (the \<open>catch\<close> only logs
  it), with the files deleted so far gone.
\<close>

definition limpiarSesionesAntiguas :: "entorno \<Rightarrow> state \<Rightarrow> state" where
  "limpiarSesionesAntiguas env st =
     (if sessionsDir st then snd (limpiarEmpresas env (empresasData env) st) else st)"

text \<open>
  The words of the specification, for comparison: the group of a chat key is the
  names that start with \<open>session-\<close> and carry that key, and the names kept in a group
  are its first ten in descending order.
\<close>

definition grupo :: "string \<Rightarrow> string list \<Rightarrow> string list" where
  "grupo chatId archivos =
     filter (\<lambda>a. startsWith a ''session-'' \<and> chatId_of a = chatId) archivos"

definition retenido :: "string list \<Rightarrow> string \<Rightarrow> bool" where
  "retenido archivos a =
     (startsWith a ''session-'' \<longrightarrow> a \<in> set (take 10 (rev (sort (grupo (chatId_of a) archivos)))))"

text \<open>The names of a directory that are not session files, in their order.\<close>

definition ajenos :: "string list \<Rightarrow> string list" where
  "ajenos archivos = filter (\<lambda>a. \<not> startsWith a ''session-'') archivos"

text \<open>A directory lists each of its names once.\<close>

definition fs_ok :: "state \<Rightarrow> bool" where
  "fs_ok st = (\<forall>k archivos. dirs st k = Some archivos \<longrightarrow> distinct archivos)"

section \<open>Sending and dispatching messages\<close>

text \<open>\<open>sock.sendMessage(to, { text })\<close>: the provider accepts the send or throws.\<close>

definition sendMessage :: "entorno \<Rightarrow> sock \<Rightarrow> string option \<Rightarrow> string \<Rightarrow> state \<Rightarrow> (exn + unit) \<times> state" where
  "sendMessage env s to text st =
     (let st1 = st\<lparr>trace := trace st @ [SendMessage s to text]\<rparr>
      in case sendMessage_throws env s to text of
           None \<Rightarrow> (Inr (), st1)
         | Some err \<Rightarrow> (Inl err, st1))"

definition enviarMensaje :: "entorno \<Rightarrow> sock \<Rightarrow> string option \<Rightarrow> string \<Rightarrow> state \<Rightarrow> (exn + unit) \<times> state" where
  "enviarMensaje env s to text st =
     (case sendMessage env s to text st of
        (Inr _, st') \<Rightarrow> (Inr (), st')
      | (Inl err, st') \<Rightarrow> (Inr (), st'))"

record resultado =
  success :: bool
  message :: "string option"
  error :: "string option"

definition enviarRespuestaDesdeN8N :: "entorno \<Rightarrow> string \<Rightarrow> string \<Rightarrow> string \<Rightarrow> state \<Rightarrow> resultado \<times> state" where
  "enviarRespuestaDesdeN8N env k tel respuesta st =
     (case (case bots st k of
              None \<Rightarrow> (Inl (Error (''Bot no encontrado para empresa '' @ k)), st)
            | Some s \<Rightarrow> enviarMensaje env s (Some tel) respuesta st) of
        (Inr _, st') \<Rightarrow>
          (\<lparr>success = True, message = Some ''Respuesta enviada correctamente desde N8N'',
            error = None\<rparr>, st')
      | (Inl err, st') \<Rightarrow>
          (\<lparr>success = False, message = Some (exn_message err), error = None\<rparr>, st'))"

definition enviarMensajePorEmpresaId :: "entorno \<Rightarrow> string \<Rightarrow> string \<Rightarrow> string \<Rightarrow> state \<Rightarrow> resultado \<times> state" where
  "enviarMensajePorEmpresaId env k to text st =
     (case (case bots st k of
              None \<Rightarrow> (Inl (Error ''Bot no encontrado''), st)
            | Some s \<Rightarrow> enviarMensaje env s (Some to) text st) of
        (Inr _, st') \<Rightarrow>
          (\<lparr>success = True, message = Some ''Mensaje enviado correctamente'', error = None\<rparr>, st')
      | (Inl err, st') \<Rightarrow>
          (\<lparr>success = False, message = None, error = Some ''Error al enviar el mensaje''\<rparr>, st'))"

text \<open>
  The local interpreter. \<open>trim\<close> and \<open>toLowerCase\<close> are those of JavaScript on the
  characters a \<open>string\<close> has; the replies are the texts of the source without their
  pictographs and line breaks.
\<close>

definition isSpace :: "char \<Rightarrow> bool" where
  "isSpace c = (c \<in> set [CHR '' '', CHR 0x09, CHR 0x0A, CHR 0x0B, CHR 0x0C, CHR 0x0D, CHR 0xA0])"

definition trim :: "string \<Rightarrow> string" where
  "trim s = rev (dropWhile isSpace (rev (dropWhile isSpace s)))"

definition toLowerCase :: "string \<Rightarrow> string" where
  "toLowerCase s =
     map (\<lambda>c. if CHR ''A'' \<le> c \<and> c \<le> CHR ''Z'' then char_of (of_char c + (32::nat)) else c) s"

definition respuesta_ayuda :: string where
  "respuesta_ayuda = ''*Comandos disponibles (Modo local):* !estado [numero], !ayuda, !info, !horario. *Nota:* N8N no disponible, funcionando en modo local.''"

definition respuesta_info :: "empresa option \<Rightarrow> string" where
  "respuesta_info e =
     ''*'' @ (case e of None \<Rightarrow> ''Empresa'' | Some x \<Rightarrow> if nombre x = [] then ''Empresa'' else nombre x)
     @ ''* WhatsApp: ''
     @ (case e of None \<Rightarrow> ''No disponible'' | Some x \<Rightarrow> if whatsapp x = [] then ''No disponible'' else whatsapp x)
     @ '' Gracias por contactarnos!''"

definition respuesta_desconocido :: string where
  "respuesta_desconocido = ''Comando no reconocido. Escribe *!ayuda* para ver comandos disponibles. *Nota:* Sistema funcionando en modo local.''"

definition procesarMensajeLocal :: "entorno \<Rightarrow> string \<Rightarrow> datos \<Rightarrow> state \<Rightarrow> (exn + unit) \<times> state" where
  "procesarMensajeLocal env k d st =
     (let st1 = st\<lparr>trace := trace st @ [ProcesarMensajeLocal k (mensaje d)]\<rparr>
      in case bots st1 k of
           None \<Rightarrow> (Inr (), st1)
         | Some s \<Rightarrow>
             if startsWith (mensaje d) ''!'' then
               (let comando = toLowerCase (trim (drop 1 (mensaje d)));
                    respuesta =
                      (if comando = ''ayuda'' \<or> comando = ''help'' then respuesta_ayuda
                       else if comando = ''info''
                            then respuesta_info (find (\<lambda>e. id_emp e = k) (empresasData env))
                            else respuesta_desconocido)
                in enviarMensaje env s (telefono d) respuesta st1)
             else (Inr (), st1))"

definition axios_throws :: "respuesta_http \<Rightarrow> bool" where
  "axios_throws r = (case r of Status n \<Rightarrow> \<not> (200 \<le> n \<and> n < 300) | Timeout \<Rightarrow> True | NetworkError \<Rightarrow> True)"

definition enviarMensajeAN8N :: "entorno \<Rightarrow> string \<Rightarrow> datos \<Rightarrow> state \<Rightarrow> (exn + unit) \<times> state" where
  "enviarMensajeAN8N env k d st =
     (let webhookUrl = N8N_WEBHOOK_URL env @ ''/empresa-'' @ k;
          st1 = st\<lparr>trace := trace st @ [AxiosPost webhookUrl]\<rparr>
      in if axios_throws (axios_post env webhookUrl d)
         then procesarMensajeLocal env k d st1
         else (Inr (), st1))"

record wa_message =
  fromMe :: bool
  remoteJid :: "string option"
  conversation :: "string option"

text \<open>
  The handler of \<open>messages.upsert\<close>. Reading \<open>msg.messages[0]\<close> of an empty batch gives
  \<open>undefined\<close>, and the next line throws outside the \<open>try\<close>.
\<close>

definition messages_upsert :: "entorno \<Rightarrow> empresa \<Rightarrow> nat \<Rightarrow> wa_message list \<Rightarrow> state \<Rightarrow> (exn + unit) \<times> state" where
  "messages_upsert env e now messages st =
     (case messages of
        [] \<Rightarrow> (Inl TypeError, st)
      | m # _ \<Rightarrow>
          (let texto = conversation m; sender = remoteJid m
           in if \<not> fromMe m \<and> truthy texto then
                (case enviarMensajeAN8N env (id_emp e)
                        \<lparr>mensaje = (case texto of None \<Rightarrow> [] | Some t \<Rightarrow> t),
                         telefono = sender, empresaId = id_emp e, timestamp = now\<rparr> st of
                   (Inr _, st') \<Rightarrow> (Inr (), st')
                 | (Inl err, st') \<Rightarrow> (Inr (), st'))
              else (Inr (), st)))"

text \<open>The entries of the trace that are runs of the local interpreter.\<close>

fun es_local :: "action \<Rightarrow> bool" where
  "es_local (ProcesarMensajeLocal k m) = True"
| "es_local _ = False"

section \<open>A concrete tenant, environments and states\<close>

definition t1 :: empresa where
  "t1 = \<lparr>id_emp = ''t1'', nombre = ''Tienda Uno'', whatsapp = ''51999000111'',
         sesionPath = ''sessions/t1''\<rparr>"

text \<open>An environment where everything outside the service works.\<close>

definition entorno_ok :: entorno where
  "entorno_ok =
     \<lparr>provider = (\<lambda>_. Opened), unlink_ok = (\<lambda>_ _. True), axios_post = (\<lambda>_ _. Status 200),
      sendMessage_throws = (\<lambda>_ _ _. None), empresasData = [t1],
      N8N_WEBHOOK_URL = ''http://n8n-server:5678/webhook''\<rparr>"

text \<open>An environment where the webhook times out and the provider refuses every send.\<close>

definition entorno_caido :: entorno where
  "entorno_caido =
     \<lparr>provider = (\<lambda>_. Opened), unlink_ok = (\<lambda>_ _. True), axios_post = (\<lambda>_ _. Timeout),
      sendMessage_throws = (\<lambda>_ _ _. Some (Error ''Connection Closed'')), empresasData = [t1],
      N8N_WEBHOOK_URL = ''http://n8n-server:5678/webhook''\<rparr>"

text \<open>The tenant \<open>t1\<close> running on socket 0, with no reconnect counter.\<close>

definition st_t1 :: state where
  "st_t1 =
     \<lparr>bots = [''t1'' \<mapsto> 0], connectionAttempts = Map.empty, sessionsDir = True,
      dirs = [''t1'' \<mapsto> [''creds.json'']], openCalls = 1, trace = []\<rparr>"

definition archivos15 :: "string list" where
  "archivos15 =
     [''session-c1.01'', ''session-c1.02'', ''session-c1.03'', ''session-c1.04'',
      ''session-c1.05'', ''session-c1.06'', ''session-c1.07'', ''session-c1.08'',
      ''session-c1.09'', ''session-c1.10'', ''session-c1.11'', ''session-c1.12'',
      ''session-c1.13'', ''session-c1.14'', ''session-c1.15'']"

text \<open>Before any bot is started: the directory of \<open>t1\<close> holds the fifteen files.\<close>

definition st_15 :: state where
  "st_15 =
     \<lparr>bots = Map.empty, connectionAttempts = Map.empty, sessionsDir = True,
      dirs = [''t1'' \<mapsto> archivos15], openCalls = 0, trace = []\<rparr>"

text \<open>The same with the credentials and a note beside the session files.\<close>

definition st_17 :: state where
  "st_17 =
     \<lparr>bots = Map.empty, connectionAttempts = Map.empty, sessionsDir = True,
      dirs = [''t1'' \<mapsto> ''creds.json'' # archivos15 @ [''notas.txt'']], openCalls = 0,
      trace = []\<rparr>"

text \<open>
  An environment where the second attempt to open a provider connection (the one
  numbered 1) fails after the directory is there, and every other attempt succeeds.
\<close>

definition entorno_un_fallo :: entorno where
  "entorno_un_fallo =
     \<lparr>provider = (\<lambda>k. if k = 1 then OpenFails else Opened), unlink_ok = (\<lambda>_ _. True),
      axios_post = (\<lambda>_ _. Status 200), sendMessage_throws = (\<lambda>_ _ _. None),
      empresasData = [t1], N8N_WEBHOOK_URL = ''http://n8n-server:5678/webhook''\<rparr>"

text \<open>An open event.\<close>

definition apertura :: update where
  "apertura = \<lparr>connection = Some Open, statusCode = None, qr = None\<rparr>"

definition hola :: wa_message where
  "hola = \<lparr>fromMe = False, remoteJid = Some ''51988000222@s.whatsapp.net'',
           conversation = Some ''!info''\<rparr>"

section \<open>The reconnect state machine: properties\<close>

lemma iniciarBot_opened:
  assumes "bots st (id_emp e) = None" and "provider env (openCalls st) = Opened"
  shows "iniciarBot env e st =
           (let st2 = mkdirSync (id_emp e) (st\<lparr>openCalls := Suc (openCalls st)\<rparr>)
            in st2\<lparr>bots := (bots st2)(id_emp e \<mapsto> openCalls st),
                    trace := trace st2 @ [MakeSocket (id_emp e) (openCalls st)]\<rparr>)"
  using assms by (subst iniciarBot.simps) (simp add: Let_def domIff)

lemma mkdirSync_fields [simp]:
  "bots (mkdirSync k st) = bots st"
  "connectionAttempts (mkdirSync k st) = connectionAttempts st"
  "openCalls (mkdirSync k st) = openCalls st"
  "trace (mkdirSync k st) = trace st"
  by (simp_all add: mkdirSync_def)

lemma intentos_mkdirSync [simp]: "intentos (mkdirSync k st) k' = intentos st k'"
  by (simp add: intentos_def)

lemma decide_close_retry:
  assumes "c \<noteq> Some loggedOut" and "intentos st (id_emp e) < 5"
  shows "connection_update_decide e (cierre c) st =
           (st\<lparr>connectionAttempts := (connectionAttempts st)(id_emp e \<mapsto> Suc (intentos st (id_emp e)))\<rparr>,
            Some (min (1000 * 2 ^ Suc (intentos st (id_emp e))) 30000))"
  using assms
  by (simp add: connection_update_decide_def cierre_def truthy_def Let_def
        MAX_RECONNECT_ATTEMPTS_def)


lemma reconectar_opened:
  assumes "provider env (openCalls st) = Opened"
  shows "bots (reconectar env e d st) (id_emp e) = Some (openCalls st)
       \<and> connectionAttempts (reconectar env e d st) = connectionAttempts st
       \<and> openCalls (reconectar env e d st) = Suc (openCalls st)"
  using assms
  by (simp add: reconectar_def esperar_def Let_def iniciarBot_opened split: option.splits)

lemma reconectar_trace:
  assumes "provider env (openCalls st) = Opened"
  shows "trace (reconectar env e d st)
           = trace st @ Esperar d
               # (case bots st (id_emp e) of None \<Rightarrow> [] | Some s \<Rightarrow> [SockEnd s])
               @ [MakeSocket (id_emp e) (openCalls st)]"
  using assms
  by (simp add: reconectar_def esperar_def Let_def iniciarBot_opened split: option.splits)

lemma connection_update_Some:
  "connection_update_decide e u st = (st', Some d) \<Longrightarrow>
     connection_update env e u st = reconectar env e d st'"
  by (simp add: connection_update_def)

lemma close_retry_step:
  assumes "\<forall>k. provider env k = Opened" and "c \<noteq> Some loggedOut"
    and "intentos st (id_emp e) < 5"
  shows "bots (connection_update env e (cierre c) st) (id_emp e) = Some (openCalls st)"
    and "connectionAttempts (connection_update env e (cierre c) st) (id_emp e)
           = Some (Suc (intentos st (id_emp e)))"
    and "openCalls (connection_update env e (cierre c) st) = Suc (openCalls st)"
  using assms
  by (simp_all add: connection_update_def decide_close_retry reconectar_opened)

lemma closes_count:
  assumes "\<forall>k. provider env k = Opened" and "\<forall>c\<in>set cs. c \<noteq> Some loggedOut"
    and "intentos st (id_emp e) + length cs \<le> 5"
  shows "intentos (procesar env e (map cierre cs) st) (id_emp e) = intentos st (id_emp e) + length cs
       \<and> openCalls (procesar env e (map cierre cs) st) = openCalls st + length cs
       \<and> (cs \<noteq> [] \<longrightarrow>
            bots (procesar env e (map cierre cs) st) (id_emp e) = Some (openCalls st + length cs - 1)
          \<and> connectionAttempts (procesar env e (map cierre cs) st) (id_emp e)
              = Some (intentos st (id_emp e) + length cs))"
  using assms
proof (induction cs arbitrary: st)
  case Nil
  then show ?case by simp
next
  case (Cons c cs)
  let ?st1 = "connection_update env e (cierre c) st"
  have lt: "intentos st (id_emp e) < 5" using Cons.prems(3) by simp
  have c: "c \<noteq> Some loggedOut" using Cons.prems(2) by simp
  note step = close_retry_step [OF Cons.prems(1) c lt]
  have i1: "intentos ?st1 (id_emp e) = Suc (intentos st (id_emp e))"
    by (simp add: intentos_def step(2))
  have ih: "intentos (procesar env e (map cierre cs) ?st1) (id_emp e) = intentos ?st1 (id_emp e) + length cs
       \<and> openCalls (procesar env e (map cierre cs) ?st1) = openCalls ?st1 + length cs
       \<and> (cs \<noteq> [] \<longrightarrow>
            bots (procesar env e (map cierre cs) ?st1) (id_emp e) = Some (openCalls ?st1 + length cs - 1)
          \<and> connectionAttempts (procesar env e (map cierre cs) ?st1) (id_emp e)
              = Some (intentos ?st1 (id_emp e) + length cs))"
    using Cons.prems by (intro Cons.IH) (simp_all add: i1)
  show ?case
  proof (cases "cs = []")
    case True
    then show ?thesis using step i1 by simp
  next
    case False
    then show ?thesis using ih step i1 by simp
  qed
qed





text \<open>
  C2, as the code has it: after an open event, when every reconnect in between builds
  its socket, the n-th consecutive non-logout close (n from 1 to 5) is decided with the
  delay \<open>min (1000 * 2 ^ n) 30000\<close> ms, and the handler then does exactly this to the
  outside world: it waits that delay, ends the old socket if the registry holds one,
  and opens a new provider connection, which it registers; the counter stands at n.
  The delay is 2000 ms for n = 1 and 30000 ms for n = 5.
\<close>

theorem backoff_formula:
  assumes "\<forall>k. provider env k = Opened"
    and "connection u = Some Open"
    and "\<forall>c\<in>set cs. c \<noteq> Some loggedOut"
    and "c \<noteq> Some loggedOut"
    and "n = Suc (length cs)"
    and "n \<le> 5"
  shows "(let st0 = connection_update env e u st;
              stn = procesar env e (map cierre cs) st0;
              delay = min (1000 * 2 ^ n) 30000;
              st' = connection_update env e (cierre c) stn
          in snd (connection_update_decide e (cierre c) stn) = Some delay
           \<and> trace st'
               = trace stn @ Esperar delay
                   # (case bots stn (id_emp e) of None \<Rightarrow> [] | Some s \<Rightarrow> [SockEnd s])
                   @ [MakeSocket (id_emp e) (openCalls stn)]
           \<and> bots st' (id_emp e) = Some (openCalls stn)
           \<and> connectionAttempts st' (id_emp e) = Some n
           \<and> (n = 1 \<longrightarrow> delay = 2000) \<and> (n = 5 \<longrightarrow> delay = 30000))"
proof -
  let ?st0 = "connection_update env e u st"
  let ?stn = "procesar env e (map cierre cs) ?st0"
  let ?d = "min (1000 * 2 ^ n) (30000::nat)"
  let ?stc = "?stn\<lparr>connectionAttempts := (connectionAttempts ?stn)(id_emp e \<mapsto> n)\<rparr>"
  have zero: "intentos ?st0 (id_emp e) = 0"
    using assms(2)
    by (simp add: connection_update_def connection_update_decide_def intentos_def Let_def)
  have cnt: "intentos ?stn (id_emp e) = length cs"
    using closes_count [OF assms(1) assms(3), of ?st0 e] assms(5,6) zero by simp
  have dec: "connection_update_decide e (cierre c) ?stn = (?stc, Some ?d)"
    using decide_close_retry [OF assms(4), of ?stn e] cnt assms(5,6) by simp
  have run: "connection_update env e (cierre c) ?stn = reconectar env e ?d ?stc"
    by (rule connection_update_Some [OF dec])
  have prov: "provider env (openCalls ?stc) = Opened"
    using assms(1) by simp
  have tr: "trace (reconectar env e ?d ?stc)
              = trace ?stn @ Esperar ?d
                  # (case bots ?stn (id_emp e) of None \<Rightarrow> [] | Some s \<Rightarrow> [SockEnd s])
                  @ [MakeSocket (id_emp e) (openCalls ?stn)]"
    using reconectar_trace [OF prov, of e ?d] by simp
  have after: "bots (reconectar env e ?d ?stc) (id_emp e) = Some (openCalls ?stn)"
    "connectionAttempts (reconectar env e ?d ?stc) (id_emp e) = Some n"
    using reconectar_opened [OF prov, of e ?d] by simp_all
  have one: "snd (connection_update_decide e (cierre c) ?stn) = Some ?d"
    by (simp only: dec snd_conv)
  have ends: "(n = 1 \<longrightarrow> ?d = 2000) \<and> (n = 5 \<longrightarrow> ?d = 30000)"
    by simp
  show ?thesis
    unfolding Let_def run
    using one tr after ends by (intro conjI) blast+
qed

text \<open>
  The theorem at the fifth close of \<open>t1\<close> after an open: the handler waits 30000 ms, ends
  socket 4 and opens socket 5.
\<close>

theorem backoff_formula_witness:
  "snd (connection_update_decide t1 (cierre (Some 408))
         (procesar entorno_ok t1 (map cierre [None, Some 428, Some 500, None])
            (connection_update entorno_ok t1 apertura st_t1)))
     = Some 30000
   \<and> trace (connection_update entorno_ok t1 (cierre (Some 408))
         (procesar entorno_ok t1 (map cierre [None, Some 428, Some 500, None])
            (connection_update entorno_ok t1 apertura st_t1)))
     = trace (procesar entorno_ok t1 (map cierre [None, Some 428, Some 500, None])
            (connection_update entorno_ok t1 apertura st_t1))
       @ [Esperar 30000, SockEnd 4, MakeSocket ''t1'' 5]"
proof -
  let ?st0 = "connection_update entorno_ok t1 apertura st_t1"
  let ?cs = "[None, Some 428, Some 500, None]"
  let ?stn = "procesar entorno_ok t1 (map cierre ?cs) ?st0"
  have prov: "\<forall>k. provider entorno_ok k = Opened"
    by (simp add: entorno_ok_def)
  have codes: "\<forall>c\<in>set ?cs. c \<noteq> Some loggedOut"
    by (simp add: loggedOut_def)
  have H: "(let st0 = connection_update entorno_ok t1 apertura st_t1;
              stn = procesar entorno_ok t1 (map cierre ?cs) st0;
              delay = min (1000 * 2 ^ 5) 30000;
              st' = connection_update entorno_ok t1 (cierre (Some 408)) stn
          in snd (connection_update_decide t1 (cierre (Some 408)) stn) = Some delay
           \<and> trace st'
               = trace stn @ Esperar delay
                   # (case bots stn (id_emp t1) of None \<Rightarrow> [] | Some s \<Rightarrow> [SockEnd s])
                   @ [MakeSocket (id_emp t1) (openCalls stn)]
           \<and> bots st' (id_emp t1) = Some (openCalls stn)
           \<and> connectionAttempts st' (id_emp t1) = Some 5
           \<and> ((5::nat) = 1 \<longrightarrow> delay = 2000) \<and> ((5::nat) = 5 \<longrightarrow> delay = 30000))"
    by (rule backoff_formula [OF prov _ codes]) (simp_all add: apertura_def loggedOut_def)
  have st0: "?st0 = st_t1"
    by (simp add: connection_update_def connection_update_decide_def apertura_def truthy_def
          st_t1_def t1_def Let_def)
  have zero: "intentos st_t1 (id_emp t1) = 0"
    by (simp add: intentos_def st_t1_def)
  have handle: "bots ?stn (id_emp t1) = Some 4" and opens: "openCalls ?stn = 5"
    unfolding st0
    using closes_count [OF prov codes, of st_t1 t1] zero
    by (simp_all add: st_t1_def)
  have d: "min (1000 * 2 ^ 5) 30000 = (30000::nat)" by simp
  have id: "id_emp t1 = ''t1''" by (simp add: t1_def)
  from H have one: "snd (connection_update_decide t1 (cierre (Some 408)) ?stn) = Some 30000"
    and two: "trace (connection_update entorno_ok t1 (cierre (Some 408)) ?stn)
               = trace ?stn @ Esperar 30000
                   # (case bots ?stn (id_emp t1) of None \<Rightarrow> [] | Some s \<Rightarrow> [SockEnd s])
                   @ [MakeSocket (id_emp t1) (openCalls ?stn)]"
    unfolding Let_def d by blast+
  have "trace (connection_update entorno_ok t1 (cierre (Some 408)) ?stn)
               = trace ?stn @ [Esperar 30000, SockEnd 4, MakeSocket ''t1'' 5]"
    unfolding two id handle [unfolded id] opens by simp
  with one show ?thesis by blast
qed

text \<open>
  C2 as stated fails: the catch of \<open>iniciarBot\<close> raises the same counter. After an open,
  the first close of \<open>t1\<close> waits 2000 ms; the reconnect fails once to open (counter 2,
  wait of 5000 ms) and then builds socket 2; the second consecutive close since the
  open is decided with 8000 ms, not 4000 ms, and the handler waits that long.
\<close>

theorem failed_open_shifts_backoff:
  "snd (connection_update_decide t1 (cierre None)
          (procesar entorno_un_fallo t1 [apertura, cierre None] st_t1)) = Some 8000
   \<and> trace (procesar entorno_un_fallo t1 [apertura, cierre None, cierre None] st_t1)
       = [Esperar 2000, SockEnd 0, Esperar 5000, MakeSocket ''t1'' 2,
          Esperar 8000, SockEnd 2, MakeSocket ''t1'' 3]"
  by (simp add: connection_update_def connection_update_decide_def reconectar_def
        iniciarBot.simps esperar_def mkdirSync_def intentos_def cierre_def apertura_def
        truthy_def entorno_un_fallo_def st_t1_def t1_def loggedOut_def
        MAX_RECONNECT_ATTEMPTS_def RECONNECT_INTERVAL_def Let_def)

text \<open>
  C3: whatever the attempt counter, a close whose status code is the logged-out reason
  schedules nothing: the handler finishes without waiting and without calling
  \<open>iniciarBot\<close>, so the trace of outside calls and the count of opens are unchanged.
\<close>

theorem logout_never_schedules:
  assumes "connection u = Some Close" and "statusCode u = Some loggedOut"
  shows "snd (connection_update_decide e u st) = None
       \<and> connection_update env e u st = fst (connection_update_decide e u st)
       \<and> trace (connection_update env e u st) = trace st
       \<and> openCalls (connection_update env e u st) = openCalls st"
  using assms
  by (simp add: connection_update_def connection_update_decide_def Let_def)

text \<open>
  The theorem at a logout close of the running tenant \<open>t1\<close>.
\<close>

theorem logout_never_schedules_witness:
  "snd (connection_update_decide t1 (cierre (Some loggedOut)) st_t1) = None
   \<and> connection_update entorno_ok t1 (cierre (Some loggedOut)) st_t1
       = fst (connection_update_decide t1 (cierre (Some loggedOut)) st_t1)
   \<and> trace (connection_update entorno_ok t1 (cierre (Some loggedOut)) st_t1) = trace st_t1
   \<and> openCalls (connection_update entorno_ok t1 (cierre (Some loggedOut)) st_t1) = openCalls st_t1"
  by (rule logout_never_schedules) (simp_all add: cierre_def)

text \<open>
  C4 at a running tenant with no counter: the logout close changes nothing, and the
  handle stays in the registry. The handler removes the handle and the counter only in
  the branch taken when the incremented count exceeds 5.
\<close>

theorem logout_leaves_handle:
  "connection_update entorno_ok t1 (cierre (Some loggedOut)) st_t1 = st_t1
   \<and> bots st_t1 ''t1'' = Some 0"
  by (simp add: connection_update_def connection_update_decide_def cierre_def Let_def
        truthy_def intentos_def st_t1_def t1_def MAX_RECONNECT_ATTEMPTS_def)

text \<open>
  C5: an open event removes the counter of the tenant, which then reads as 0 (also in the
  status report), and the next non-logout close counts as attempt 1: it stores 1 and
  schedules the reconnect after 2000 ms.
\<close>

theorem reset_on_open:
  assumes "connection u = Some Open" and "c \<noteq> Some loggedOut"
  shows "(let st' = connection_update env e u st
          in connectionAttempts st' (id_emp e) = None
           \<and> intentos st' (id_emp e) = 0
           \<and> intentosReconexion (obtenerEstadoBot now (id_emp e) st') = 0
           \<and> connection_update_decide e (cierre c) st'
               = (st'\<lparr>connectionAttempts := (connectionAttempts st')(id_emp e \<mapsto> 1)\<rparr>,
                  Some 2000))"
proof -
  let ?st' = "connection_update env e u st"
  have none: "connectionAttempts ?st' (id_emp e) = None"
    using assms(1)
    by (simp add: connection_update_def connection_update_decide_def Let_def)
  then have zero: "intentos ?st' (id_emp e) = 0"
    by (simp add: intentos_def)
  show ?thesis
    unfolding Let_def
    using decide_close_retry [OF assms(2), of ?st' e] none zero
    by (simp add: obtenerEstadoBot_def)
qed

text \<open>
  The theorem at an open event of \<open>t1\<close> followed by a close with status code 428.
\<close>

theorem reset_on_open_witness:
  "(let st' = connection_update entorno_ok t1
                \<lparr>connection = Some Open, statusCode = None, qr = None\<rparr> st_t1
    in connectionAttempts st' (id_emp t1) = None
     \<and> intentos st' (id_emp t1) = 0
     \<and> intentosReconexion (obtenerEstadoBot 0 (id_emp t1) st') = 0
     \<and> connection_update_decide t1 (cierre (Some 428)) st'
         = (st'\<lparr>connectionAttempts := (connectionAttempts st')(id_emp t1 \<mapsto> 1)\<rparr>,
            Some 2000))"
  by (rule reset_on_open) (simp_all add: loggedOut_def)

text \<open>
  C9: when the registry already holds a handle for the tenant, \<open>iniciarBot\<close> returns the
  state it was given: no provider connection is opened (the trace and the count of
  opens are the same), and the registry, the attempt counters and the session
  directories are unchanged.
\<close>

theorem iniciarBot_idempotent_start:
  "bots st (id_emp e) = Some h \<Longrightarrow> iniciarBot env e st = st"
  by (subst iniciarBot.simps) (simp add: domI)

text \<open>
  The theorem at the running tenant \<open>t1\<close>.
\<close>

theorem iniciarBot_idempotent_start_witness:
  "iniciarBot entorno_ok t1 st_t1 = st_t1"
  by (rule iniciarBot_idempotent_start [where h = 0]) (simp add: st_t1_def t1_def)


section \<open>Pruning: properties\<close>

lemma push_sesion_keys: "map fst (push_sesion c a m) = map fst m"
  by (induction m) auto

lemma map_of_push_sesion:
  "map_of (push_sesion c a m) k =
     (if k = c then map_option (\<lambda>v. v @ [a]) (map_of m c) else map_of m k)"
  by (induction m) auto

lemma sesiones_push:
  "(case map_of (push_sesion c a (if map_of m c = None then m @ [(c, [])] else m)) k of
      None \<Rightarrow> [] | Some v \<Rightarrow> v)
   = (case map_of m k of None \<Rightarrow> [] | Some v \<Rightarrow> v) @ (if c = k then [a] else [])"
proof (cases "map_of m c")
  case None
  then show ?thesis
    by (simp add: map_of_push_sesion map_add_def split: option.splits)
next
  case (Some v)
  then show ?thesis
    by (auto simp: map_of_push_sesion)
qed

lemma grupo_Cons:
  "grupo k (a # archivos) =
     (if startsWith a ''session-'' \<and> chatId_of a = k then a # grupo k archivos
      else grupo k archivos)"
  by (simp add: grupo_def)

text \<open>
  The loop that fills \<open>sesionesPorChat\<close> computes the groups of the specification: the
  keys stay distinct, and the list stored under a chat key is the group of that key.
\<close>

lemma agrupar_grupo:
  assumes "distinct (map fst m)"
  shows "distinct (map fst (agrupar archivos m))
       \<and> (\<forall>k. (case map_of (agrupar archivos m) k of None \<Rightarrow> [] | Some v \<Rightarrow> v)
               = (case map_of m k of None \<Rightarrow> [] | Some v \<Rightarrow> v) @ grupo k archivos)"
  using assms
proof (induction archivos arbitrary: m)
  case Nil
  then show ?case by (simp add: grupo_def)
next
  case (Cons a archivos)
  show ?case
  proof (cases "startsWith a ''session-''")
    case False
    then show ?thesis using Cons by (simp add: grupo_Cons)
  next
    case True
    let ?c = "chatId_of a"
    let ?m1 = "if map_of m ?c = None then m @ [(?c, [])] else m"
    let ?m2 = "push_sesion ?c a ?m1"
    have d1: "distinct (map fst ?m1)"
      using Cons.prems by (auto simp: map_of_eq_None_iff)
    have d2: "distinct (map fst ?m2)"
      using d1 by (simp only: push_sesion_keys)
    have g2: "(case map_of ?m2 k of None \<Rightarrow> [] | Some v \<Rightarrow> v)
                = (case map_of m k of None \<Rightarrow> [] | Some v \<Rightarrow> v)
                  @ (if ?c = k then [a] else [])" for k
      by (rule sesiones_push)
    have step: "agrupar (a # archivos) m = agrupar archivos ?m2"
      using True by (simp add: Let_def)
    show ?thesis
      unfolding step using Cons.IH [OF d2] True
      by (simp add: g2 grupo_Cons)
  qed
qed

lemma sesionesActivas_of_iff:
  "a \<in> sesionesActivas_of m \<longleftrightarrow> (\<exists>(k, v) \<in> set m. a \<in> set (ultimas v))"
  by (induction m) auto

lemma ultimas_Nil [simp]: "ultimas [] = []"
  by (simp add: ultimas_def)

lemma sesionesActivas_of_distinct:
  assumes "distinct (map fst m)"
  shows "a \<in> sesionesActivas_of m \<longleftrightarrow>
           (\<exists>k. a \<in> set (ultimas (case map_of m k of None \<Rightarrow> [] | Some v \<Rightarrow> v)))"
proof
  assume "a \<in> sesionesActivas_of m"
  then obtain k v where kv: "(k, v) \<in> set m" "a \<in> set (ultimas v)"
    by (auto simp: sesionesActivas_of_iff)
  then have "map_of m k = Some v" using assms by simp
  with kv(2) show "\<exists>k. a \<in> set (ultimas (case map_of m k of None \<Rightarrow> [] | Some v \<Rightarrow> v))"
    by (intro exI [of _ k]) simp
next
  assume "\<exists>k. a \<in> set (ultimas (case map_of m k of None \<Rightarrow> [] | Some v \<Rightarrow> v))"
  then obtain k where k: "a \<in> set (ultimas (case map_of m k of None \<Rightarrow> [] | Some v \<Rightarrow> v))"
    by blast
  then obtain v where v: "map_of m k = Some v" "a \<in> set (ultimas v)"
    by (cases "map_of m k") auto
  then have "(k, v) \<in> set m" by (simp add: map_of_SomeD)
  with v(2) show "a \<in> sesionesActivas_of m"
    by (auto simp: sesionesActivas_of_iff)
qed

lemma ultimas_subset: "a \<in> set (ultimas xs) \<Longrightarrow> a \<in> set xs"
  unfolding ultimas_def using in_set_takeD by fastforce

lemma in_grupo: "a \<in> set (grupo k archivos) \<longleftrightarrow>
    a \<in> set archivos \<and> startsWith a ''session-'' \<and> chatId_of a = k"
  by (auto simp: grupo_def)

text \<open>
  A session file is in \<open>sesionesActivas\<close> exactly when it is among the first ten of
  its own group in descending order.
\<close>

lemma activas_iff_retenido:
  assumes "startsWith a ''session-''"
  shows "a \<in> sesionesActivas_of (agrupar archivos []) \<longleftrightarrow> retenido archivos a"
proof -
  have g: "distinct (map fst (agrupar archivos []))"
    and m: "\<And>k. (case map_of (agrupar archivos []) k of None \<Rightarrow> [] | Some v \<Rightarrow> v)
               = grupo k archivos"
    using agrupar_grupo [of "[]" archivos] by simp_all
  have "a \<in> sesionesActivas_of (agrupar archivos []) \<longleftrightarrow>
          (\<exists>k. a \<in> set (ultimas (grupo k archivos)))"
    by (simp add: sesionesActivas_of_distinct [OF g] m)
  also have "\<dots> \<longleftrightarrow> a \<in> set (ultimas (grupo (chatId_of a) archivos))"
  proof
    assume "\<exists>k. a \<in> set (ultimas (grupo k archivos))"
    then obtain k where k: "a \<in> set (ultimas (grupo k archivos))" by blast
    then have "a \<in> set (grupo k archivos)" by (rule ultimas_subset)
    then have "chatId_of a = k" by (simp add: in_grupo)
    with k show "a \<in> set (ultimas (grupo (chatId_of a) archivos))" by simp
  next
    assume "a \<in> set (ultimas (grupo (chatId_of a) archivos))"
    then show "\<exists>k. a \<in> set (ultimas (grupo k archivos))" by blast
  qed
  finally show ?thesis
    using assms by (simp add: retenido_def ultimas_def)
qed

text \<open>
  The delete loop, when no unlink fails: it ends without an exception and leaves in
  the directory the names it was not asked to delete.
\<close>

lemma eliminar_ok:
  assumes "\<forall>a. unlink_ok env k a"
    and "dirs st k = Some cur"
    and "distinct archivos"
    and "\<forall>a\<in>set archivos. startsWith a ''session-'' \<and> a \<notin> act \<longrightarrow> a \<in> set cur"
  shows "fst (eliminar env k act archivos st) = Inr ()
       \<and> dirs (snd (eliminar env k act archivos st))
           = (dirs st)(k \<mapsto> filter (\<lambda>x. \<not> (x \<in> set archivos \<and> startsWith x ''session-'' \<and> x \<notin> act)) cur)"
  using assms
proof (induction archivos arbitrary: st cur)
  case Nil
  then show ?case by (simp add: map_upd_triv)
next
  case (Cons a archivos)
  have d: "distinct archivos" and notin: "a \<notin> set archivos"
    using Cons.prems(3) by simp_all
  have rest: "\<forall>x\<in>set archivos. startsWith x ''session-'' \<and> x \<notin> act \<longrightarrow> x \<in> set cur"
    using Cons.prems(4) by simp
  show ?case
  proof (cases "startsWith a ''session-'' \<and> a \<notin> act")
    case False
    then have c: "(startsWith a ''session-'' \<and> a \<notin> act) = False" by simp
    have step: "eliminar env k act (a # archivos) st = eliminar env k act archivos st"
      by (simp only: eliminar.simps c if_False)
    have eq: "filter (\<lambda>x. \<not> (x \<in> set (a # archivos) \<and> startsWith x ''session-'' \<and> x \<notin> act)) cur
         = filter (\<lambda>x. \<not> (x \<in> set archivos \<and> startsWith x ''session-'' \<and> x \<notin> act)) cur"
      using False by (intro filter_cong) auto
    show ?thesis
      unfolding step eq by (rule Cons.IH [OF Cons.prems(1,2) d rest])
  next
    case True
    let ?st1 = "st\<lparr>dirs := (dirs st)(k \<mapsto> removeAll a cur),
                    trace := trace st @ [Unlink k a]\<rparr>"
    have incur: "a \<in> set cur" using True Cons.prems(4) by simp
    have un: "unlinkSync env k a st = (Inr (), ?st1)"
      using Cons.prems(1,2) incur by (simp add: unlinkSync_def)
    have step: "eliminar env k act (a # archivos) st = eliminar env k act archivos ?st1"
      using True un by simp
    have dirs1: "dirs ?st1 k = Some (removeAll a cur)" by simp
    have rest1: "\<forall>x\<in>set archivos. startsWith x ''session-'' \<and> x \<notin> act \<longrightarrow> x \<in> set (removeAll a cur)"
      using rest notin by auto
    have eq: "filter (\<lambda>x. \<not> (x \<in> set archivos \<and> startsWith x ''session-'' \<and> x \<notin> act)) (removeAll a cur)
        = filter (\<lambda>x. \<not> (x \<in> set (a # archivos) \<and> startsWith x ''session-'' \<and> x \<notin> act)) cur"
      unfolding removeAll_filter_not_eq filter_filter
      using True by (intro filter_cong) auto
    have upd: "(dirs ?st1)(k \<mapsto> v) = (dirs st)(k \<mapsto> v)" for v
      by simp
    show ?thesis
      unfolding step
      using Cons.IH [OF Cons.prems(1) dirs1 d rest1]
      unfolding eq upd by assumption
  qed
qed



lemma limpiarEmpresa_ok:
  assumes "\<forall>k a. unlink_ok env k a" and "fs_ok st"
  shows "fst (limpiarEmpresa env e st) = Inr ()
       \<and> dirs (snd (limpiarEmpresa env e st))
           = (dirs st)(id_emp e := map_option (\<lambda>archivos. filter (retenido archivos) archivos)
                                     (dirs st (id_emp e)))"
proof (cases "dirs st (id_emp e)")
  case None
  then have "(dirs st)(id_emp e := None) = dirs st" by (intro ext) simp
  with None show ?thesis by (simp add: limpiarEmpresa_def)
next
  case (Some archivos)
  let ?act = "sesionesActivas_of (agrupar archivos [])"
  have d: "distinct archivos" using assms(2) Some by (simp add: fs_ok_def)
  have un: "\<forall>a. unlink_ok env (id_emp e) a" using assms(1) by simp
  have sub: "\<forall>a\<in>set archivos. startsWith a ''session-'' \<and> a \<notin> ?act \<longrightarrow> a \<in> set archivos"
    by simp
  have eq: "filter (\<lambda>x. \<not> (x \<in> set archivos \<and> startsWith x ''session-'' \<and> x \<notin> ?act)) archivos
          = filter (retenido archivos) archivos"
  proof (rule filter_cong [OF refl])
    fix x assume "x \<in> set archivos"
    then show "(\<not> (x \<in> set archivos \<and> startsWith x ''session-'' \<and> x \<notin> ?act)) = retenido archivos x"
      using activas_iff_retenido [of x archivos] by (auto simp: retenido_def)
  qed
  have run: "limpiarEmpresa env e st = eliminar env (id_emp e) ?act archivos st"
    using Some by (simp add: limpiarEmpresa_def)
  show ?thesis
    unfolding run using eliminar_ok [OF un Some d sub, unfolded eq] Some
    by simp
qed

lemma fs_ok_limpiarEmpresa:
  assumes "\<forall>k a. unlink_ok env k a" and "fs_ok st"
  shows "fs_ok (snd (limpiarEmpresa env e st))"
  using assms(2) limpiarEmpresa_ok [OF assms, of e]
  by (auto simp: fs_ok_def split: if_splits)

lemma limpiarEmpresas_ok:
  assumes "\<forall>k a. unlink_ok env k a" and "fs_ok st" and "distinct (map id_emp es)"
  shows "fst (limpiarEmpresas env es st) = Inr ()
       \<and> (\<forall>k. dirs (snd (limpiarEmpresas env es st)) k
              = (if k \<in> id_emp ` set es
                 then map_option (\<lambda>archivos. filter (retenido archivos) archivos) (dirs st k)
                 else dirs st k))"
  using assms
proof (induction es arbitrary: st)
  case Nil
  then show ?case by simp
next
  case (Cons e es)
  let ?r = "limpiarEmpresa env e st"
  have one: "fst ?r = Inr ()"
    and dirs1: "dirs (snd ?r)
           = (dirs st)(id_emp e := map_option (\<lambda>archivos. filter (retenido archivos) archivos)
                                     (dirs st (id_emp e)))"
    using limpiarEmpresa_ok [OF Cons.prems(1,2), of e] by simp_all
  have ok1: "fs_ok (snd ?r)"
    by (rule fs_ok_limpiarEmpresa [OF Cons.prems(1,2)])
  have step: "limpiarEmpresas env (e # es) st = limpiarEmpresas env es (snd ?r)"
    using one by (cases ?r) (auto split: sum.splits)
  have d: "distinct (map id_emp es)" and notin: "id_emp e \<notin> id_emp ` set es"
    using Cons.prems(3) by simp_all
  note ih = Cons.IH [OF Cons.prems(1) ok1 d]
  show ?case
    unfolding step using ih notin by (auto simp: dirs1)
qed

lemma length_grupo_podar:
  assumes "distinct archivos"
  shows "length (grupo k (filter (retenido archivos) archivos)) = min 10 (length (grupo k archivos))"
proof -
  let ?G = "grupo k archivos"
  let ?top = "take 10 (rev (sort ?G))"
  have dG: "distinct ?G" using assms by (simp add: grupo_def)
  have "grupo k (filter (retenido archivos) archivos) = filter (\<lambda>a. a \<in> set ?top) ?G"
    unfolding grupo_def filter_filter
    by (rule filter_cong [OF refl]) (auto simp: retenido_def grupo_def)
  then have "length (grupo k (filter (retenido archivos) archivos))
               = card ({a. a \<in> set ?top} \<inter> set ?G)"
    using dG by (simp add: distinct_length_filter)
  also have "{a. a \<in> set ?top} \<inter> set ?G = set ?top"
    using in_set_takeD [of _ 10 "rev (sort ?G)"] by auto
  also have "card (set ?top) = length ?top"
    using dG by (intro distinct_card distinct_take) simp
  finally show ?thesis by simp
qed

lemma retenido_mayor:
  assumes "distinct archivos"
    and "a \<in> set (grupo k archivos)" and "b \<in> set (grupo k archivos)"
    and "retenido archivos a" and "\<not> retenido archivos b"
  shows "b < a"
proof -
  let ?D = "rev (sort (grupo k archivos))"
  have dG: "distinct (grupo k archivos)" using assms(1) by (simp add: grupo_def)
  have ka: "chatId_of a = k" "startsWith a ''session-''"
    and kb: "chatId_of b = k" "startsWith b ''session-''"
    using assms(2,3) by (simp_all add: in_grupo)
  have a: "a \<in> set (take 10 ?D)" using assms(4) ka by (simp add: retenido_def)
  have "b \<notin> set (take 10 ?D)" using assms(5) kb by (simp add: retenido_def)
  moreover have "b \<in> set (take 10 ?D @ drop 10 ?D)" using assms(3) by simp
  ultimately have b: "b \<in> set (drop 10 ?D)" by (simp only: set_append) blast
  have "sorted_wrt (<) (sort (grupo k archivos))"
    using dG by (simp add: strict_sorted_iff)
  then have "sorted_wrt (\<lambda>x y. y < x) ?D"
    by (simp add: sorted_wrt_rev)
  then have "sorted_wrt (\<lambda>x y. y < x) (take 10 ?D @ drop 10 ?D)"
    by simp
  then show ?thesis
    using a b unfolding sorted_wrt_append by blast
qed

lemma ajenos_removeAll:
  "startsWith a ''session-'' \<Longrightarrow> ajenos (removeAll a archivos) = ajenos archivos"
  unfolding ajenos_def removeAll_filter_not_eq filter_filter
  by (rule filter_cong) auto

lemma unlinkSync_ajenos:
  assumes "startsWith a ''session-''"
  shows "map_option ajenos (dirs (snd (unlinkSync env k a st)) k') = map_option ajenos (dirs st k')"
  using assms by (auto simp: unlinkSync_def ajenos_removeAll split: option.splits)

lemma eliminar_ajenos:
  "map_option ajenos (dirs (snd (eliminar env k act archivos st)) k') = map_option ajenos (dirs st k')"
proof (induction archivos arbitrary: st)
  case Nil
  then show ?case by simp
next
  case (Cons a archivos)
  show ?case
  proof (cases "startsWith a ''session-'' \<and> a \<notin> act")
    case False
    then show ?thesis using Cons.IH [of st] by auto
  next
    case True
    obtain r st1 where r: "unlinkSync env k a st = (r, st1)" by (cases "unlinkSync env k a st")
    have st1: "map_option ajenos (dirs st1 k') = map_option ajenos (dirs st k')"
      using unlinkSync_ajenos [of a env k st k'] True r by simp
    show ?thesis
    proof (cases r)
      case (Inl err)
      then show ?thesis using True r st1 by simp
    next
      case (Inr u)
      then show ?thesis using True r st1 Cons.IH [of st1] by simp
    qed
  qed
qed

lemma limpiarEmpresa_ajenos:
  "map_option ajenos (dirs (snd (limpiarEmpresa env e st)) k') = map_option ajenos (dirs st k')"
  by (simp add: limpiarEmpresa_def eliminar_ajenos Let_def split: option.splits)

lemma limpiarEmpresas_ajenos:
  "map_option ajenos (dirs (snd (limpiarEmpresas env es st)) k') = map_option ajenos (dirs st k')"
proof (induction es arbitrary: st)
  case Nil
  then show ?case by simp
next
  case (Cons e es)
  obtain r st1 where r: "limpiarEmpresa env e st = (r, st1)" by (cases "limpiarEmpresa env e st")
  have st1: "map_option ajenos (dirs st1 k') = map_option ajenos (dirs st k')"
    using limpiarEmpresa_ajenos [of env e st k'] r by simp
  show ?case
  proof (cases r)
    case (Inl err)
    then show ?thesis using r st1 by simp
  next
    case (Inr u)
    then show ?thesis using r st1 Cons.IH [of st1] by simp
  qed
qed


text \<open>
  The scenario of the specification, computed: of the fifteen files of chat \<open>c1\<close> the
  ten with the greatest names remain.
\<close>

lemma poda_15:
  "dirs (limpiarSesionesAntiguas entorno_ok st_15) ''t1''
     = Some [''session-c1.06'', ''session-c1.07'', ''session-c1.08'', ''session-c1.09'',
             ''session-c1.10'', ''session-c1.11'', ''session-c1.12'', ''session-c1.13'',
             ''session-c1.14'', ''session-c1.15'']"
  by code_simp

text \<open>
  C6: with the \<open>sessions\<close> directory present, tenant ids that are distinct and no
  unlink failing, pruning leaves in the directory of every listed tenant the names that
  are not session files together with, for each chat key, the first ten session files of
  that key in descending order of name. So a group of n files keeps \<open>min 10 n\<close> of them,
  and every file kept is greater than every file of its group that is deleted. From
  \<open>session-c1.01\<close> to \<open>session-c1.15\<close>, the files 06 to 15 remain.
\<close>

theorem pruning_retention:
  assumes "sessionsDir st"
    and "fs_ok st"
    and "distinct (map id_emp (empresasData env))"
    and "\<forall>k a. unlink_ok env k a"
    and "e \<in> set (empresasData env)"
    and "dirs st (id_emp e) = Some archivos"
  shows "dirs (limpiarSesionesAntiguas env st) (id_emp e) = Some (filter (retenido archivos) archivos)
       \<and> (\<forall>k. length (grupo k (filter (retenido archivos) archivos))
                = min 10 (length (grupo k archivos)))
       \<and> (\<forall>k. \<forall>a\<in>set (grupo k archivos). \<forall>b\<in>set (grupo k archivos).
              retenido archivos a \<and> \<not> retenido archivos b \<longrightarrow> b < a)
       \<and> dirs (limpiarSesionesAntiguas entorno_ok st_15) ''t1''
           = Some [''session-c1.06'', ''session-c1.07'', ''session-c1.08'', ''session-c1.09'',
                   ''session-c1.10'', ''session-c1.11'', ''session-c1.12'', ''session-c1.13'',
                   ''session-c1.14'', ''session-c1.15'']"
proof -
  have d: "distinct archivos" using assms(2,6) by (simp add: fs_ok_def)
  have "dirs (snd (limpiarEmpresas env (empresasData env) st)) (id_emp e)
          = map_option (\<lambda>archivos. filter (retenido archivos) archivos) (dirs st (id_emp e))"
    using limpiarEmpresas_ok [OF assms(4,2,3)] assms(5) by simp
  then have one: "dirs (limpiarSesionesAntiguas env st) (id_emp e)
                    = Some (filter (retenido archivos) archivos)"
    using assms(1,6) by (simp add: limpiarSesionesAntiguas_def)
  have two: "\<forall>k. length (grupo k (filter (retenido archivos) archivos))
                = min 10 (length (grupo k archivos))"
    using length_grupo_podar [OF d] by blast
  have three: "\<forall>k. \<forall>a\<in>set (grupo k archivos). \<forall>b\<in>set (grupo k archivos).
              retenido archivos a \<and> \<not> retenido archivos b \<longrightarrow> b < a"
    using retenido_mayor [OF d] by blast
  show ?thesis
    using one two three poda_15 by (intro conjI)
qed

text \<open>
  The theorem at the directory of \<open>t1\<close> with the fifteen files: the directory is left
  with the files kept, ten of them in the group of \<open>session-c1\<close>, and the file 05,
  deleted, is below the file 06, kept.
\<close>

theorem pruning_retention_witness:
  "dirs (limpiarSesionesAntiguas entorno_ok st_15) (id_emp t1)
       = Some (filter (retenido archivos15) archivos15)
   \<and> length (grupo ''session-c1'' (filter (retenido archivos15) archivos15)) = 10
   \<and> ''session-c1.05'' < ''session-c1.06''"
proof -
  have H: "dirs (limpiarSesionesAntiguas entorno_ok st_15) (id_emp t1)
       = Some (filter (retenido archivos15) archivos15)
       \<and> (\<forall>k. length (grupo k (filter (retenido archivos15) archivos15))
                = min 10 (length (grupo k archivos15)))
       \<and> (\<forall>k. \<forall>a\<in>set (grupo k archivos15). \<forall>b\<in>set (grupo k archivos15).
              retenido archivos15 a \<and> \<not> retenido archivos15 b \<longrightarrow> b < a)
       \<and> dirs (limpiarSesionesAntiguas entorno_ok st_15) ''t1''
           = Some [''session-c1.06'', ''session-c1.07'', ''session-c1.08'', ''session-c1.09'',
                   ''session-c1.10'', ''session-c1.11'', ''session-c1.12'', ''session-c1.13'',
                   ''session-c1.14'', ''session-c1.15'']"
  proof (rule pruning_retention)
    show "sessionsDir st_15" by (simp add: st_15_def)
    show "fs_ok st_15" by (simp add: fs_ok_def st_15_def archivos15_def)
    show "distinct (map id_emp (empresasData entorno_ok))" by (simp add: entorno_ok_def)
    show "\<forall>k a. unlink_ok entorno_ok k a" by (simp add: entorno_ok_def)
    show "t1 \<in> set (empresasData entorno_ok)" by (simp add: entorno_ok_def)
    show "dirs st_15 (id_emp t1) = Some archivos15" by (simp add: st_15_def t1_def)
  qed
  have n: "length (grupo ''session-c1'' archivos15) = 15" by code_simp
  have a: "''session-c1.06'' \<in> set (grupo ''session-c1'' archivos15)" by code_simp
  have b: "''session-c1.05'' \<in> set (grupo ''session-c1'' archivos15)" by code_simp
  have ra: "retenido archivos15 ''session-c1.06''" by code_simp
  have rb: "\<not> retenido archivos15 ''session-c1.05''" by code_simp
  from H have "length (grupo ''session-c1'' (filter (retenido archivos15) archivos15))
                 = min 10 (length (grupo ''session-c1'' archivos15))"
    by blast
  then have two: "length (grupo ''session-c1'' (filter (retenido archivos15) archivos15)) = 10"
    by (simp add: n)
  from H a b ra rb have three: "''session-c1.05'' < ''session-c1.06''"
    by blast
  from H two three show ?thesis by blast
qed

text \<open>
  C10: whatever the environment (unlinks may fail) and whatever the directory, pruning
  leaves every name that does not start with \<open>session-\<close> where it was: the directory
  still exists and its names of that kind are the same, in the same order.
\<close>

theorem pruning_keeps_other_files:
  assumes "dirs st k = Some archivos"
  shows "\<exists>restantes. dirs (limpiarSesionesAntiguas env st) k = Some restantes
           \<and> ajenos restantes = ajenos archivos
           \<and> (\<forall>a\<in>set archivos. \<not> startsWith a ''session-'' \<longrightarrow> a \<in> set restantes)"
proof -
  have "map_option ajenos (dirs (limpiarSesionesAntiguas env st) k) = map_option ajenos (dirs st k)"
    by (simp add: limpiarSesionesAntiguas_def limpiarEmpresas_ajenos)
  then obtain restantes where r: "dirs (limpiarSesionesAntiguas env st) k = Some restantes"
    and aj: "ajenos restantes = ajenos archivos"
    using assms by auto
  have "a \<in> set restantes" if "a \<in> set archivos" "\<not> startsWith a ''session-''" for a
  proof -
    from that have "a \<in> set (ajenos archivos)" by (simp add: ajenos_def)
    then have "a \<in> set (ajenos restantes)" by (simp only: aj)
    then show ?thesis by (simp add: ajenos_def)
  qed
  with r aj show ?thesis by blast
qed

text \<open>
  The theorem at a directory holding \<open>creds.json\<close>, the fifteen session files and
  \<open>notas.txt\<close>: five session files are deleted, the two other files stay.
\<close>

theorem pruning_keeps_other_files_witness:
  "\<exists>restantes. dirs (limpiarSesionesAntiguas entorno_ok st_17) ''t1'' = Some restantes
      \<and> ''creds.json'' \<in> set restantes \<and> ''notas.txt'' \<in> set restantes"
proof -
  have d: "dirs st_17 ''t1'' = Some (''creds.json'' # archivos15 @ [''notas.txt''])"
    by (simp add: st_17_def)
  obtain restantes
    where r: "dirs (limpiarSesionesAntiguas entorno_ok st_17) ''t1'' = Some restantes"
      and keep: "\<forall>a\<in>set (''creds.json'' # archivos15 @ [''notas.txt'']).
                   \<not> startsWith a ''session-'' \<longrightarrow> a \<in> set restantes"
    using pruning_keeps_other_files [OF d, of entorno_ok] by blast
  have "\<not> startsWith ''creds.json'' ''session-''" "\<not> startsWith ''notas.txt'' ''session-''"
    by (simp_all add: startsWith_def)
  with keep have "''creds.json'' \<in> set restantes" "''notas.txt'' \<in> set restantes"
    by simp_all
  with r show ?thesis by blast
qed


section \<open>Sending and dispatching: properties\<close>

text \<open>
  \<open>enviarMensaje\<close> catches what the provider throws: it makes one send and returns
  normally either way.
\<close>

lemma enviarMensaje_never_throws:
  "fst (enviarMensaje env s to text st) = Inr ()
   \<and> trace (snd (enviarMensaje env s to text st)) = trace st @ [SendMessage s to text]
   \<and> bots (snd (enviarMensaje env s to text st)) = bots st"
  by (simp add: enviarMensaje_def sendMessage_def Let_def split: option.splits)

lemma procesarMensajeLocal_never_throws:
  "fst (procesarMensajeLocal env k d st) = Inr ()
   \<and> filter es_local (trace (snd (procesarMensajeLocal env k d st)))
       = filter es_local (trace st) @ [ProcesarMensajeLocal k (mensaje d)]"
  using enviarMensaje_never_throws
  by (simp add: procesarMensajeLocal_def Let_def split: option.splits)

text \<open>
  C7: for a message that is dispatched (first of its batch, not from the tenant itself,
  with a text that is not empty), when the post to the webhook fails (timeout, network
  error or a status outside 2xx) the handler returns normally, and the trace has gained
  exactly one run of the local interpreter, for this tenant and this text.
\<close>

theorem fallback_safety:
  assumes "messages = m # resto"
    and "\<not> fromMe m"
    and "conversation m = Some t"
    and "t \<noteq> []"
    and "axios_throws
           (axios_post env (N8N_WEBHOOK_URL env @ ''/empresa-'' @ id_emp e)
              \<lparr>mensaje = t, telefono = remoteJid m, empresaId = id_emp e, timestamp = now\<rparr>)"
  shows "fst (messages_upsert env e now messages st) = Inr ()
       \<and> filter es_local (trace (snd (messages_upsert env e now messages st)))
           = filter es_local (trace st) @ [ProcesarMensajeLocal (id_emp e) t]"
proof -
  let ?d = "\<lparr>mensaje = t, telefono = remoteJid m, empresaId = id_emp e, timestamp = now\<rparr>"
  let ?st1 = "st\<lparr>trace := trace st @ [AxiosPost (N8N_WEBHOOK_URL env @ ''/empresa-'' @ id_emp e)]\<rparr>"
  have post: "enviarMensajeAN8N env (id_emp e) ?d st = procesarMensajeLocal env (id_emp e) ?d ?st1"
    using assms(5) by (simp add: enviarMensajeAN8N_def Let_def)
  obtain r st' where r: "procesarMensajeLocal env (id_emp e) ?d ?st1 = (r, st')"
    by (cases "procesarMensajeLocal env (id_emp e) ?d ?st1")
  have loc: "filter es_local (trace st') = filter es_local (trace st) @ [ProcesarMensajeLocal (id_emp e) t]"
    using procesarMensajeLocal_never_throws [of env "id_emp e" ?d ?st1] r by simp
  have run: "messages_upsert env e now messages st = (Inr (), st')"
    using assms(1-4) post r
    by (cases r) (simp_all add: messages_upsert_def truthy_def Let_def)
  show ?thesis
    by (simp add: run loc)
qed

text \<open>
  The theorem at the message \<open>!info\<close> for \<open>t1\<close>, with the webhook timing out and the
  provider refusing the reply of the local interpreter.
\<close>

theorem fallback_safety_witness:
  "fst (messages_upsert entorno_caido t1 1700000000000 [hola] st_t1) = Inr ()
   \<and> filter es_local (trace (snd (messages_upsert entorno_caido t1 1700000000000 [hola] st_t1)))
       = filter es_local (trace st_t1) @ [ProcesarMensajeLocal (id_emp t1) ''!info'']"
  by (rule fallback_safety [where m = hola and resto = "[]"])
     (simp_all add: hola_def entorno_caido_def axios_throws_def)

text \<open>
  C8 at the running tenant \<open>t1\<close> when the provider refuses the send: both callers
  answer \<open>success = True\<close> with their message of success. The send was tried once
  and not repeated, and its error was caught inside \<open>enviarMensaje\<close>, so the \<open>catch\<close>
  of the callers never sees it.
\<close>

theorem send_failure_reported_as_success:
  "sendMessage_throws entorno_caido 0 (Some ''51988000222@s.whatsapp.net'') ''hola''
     = Some (Error ''Connection Closed'')
   \<and> enviarMensajePorEmpresaId entorno_caido ''t1'' ''51988000222@s.whatsapp.net'' ''hola'' st_t1
     = (\<lparr>success = True, message = Some ''Mensaje enviado correctamente'', error = None\<rparr>,
        st_t1\<lparr>trace := [SendMessage 0 (Some ''51988000222@s.whatsapp.net'') ''hola'']\<rparr>)
   \<and> enviarRespuestaDesdeN8N entorno_caido ''t1'' ''51988000222@s.whatsapp.net'' ''hola'' st_t1
     = (\<lparr>success = True, message = Some ''Respuesta enviada correctamente desde N8N'',
         error = None\<rparr>,
        st_t1\<lparr>trace := [SendMessage 0 (Some ''51988000222@s.whatsapp.net'') ''hola'']\<rparr>)"
  by (simp add: enviarMensajePorEmpresaId_def enviarRespuestaDesdeN8N_def enviarMensaje_def
        sendMessage_def entorno_caido_def st_t1_def Let_def)

end
